theory Spec2Isabelle
  imports Complex_Main
begin

section \<open>The game server controller (k8s/game-server-controller/app.js)\<close>

text \<open>
  The controller object of \<open>app.js\<close> owns two JavaScript \<open>Map\<close>s, \<open>servers\<close> (server id to
  server record) and \<open>players\<close> (player id to server id), and three configuration numbers.
  Its methods talk to the Kubernetes API (the provisioner) and to a socket. The model below
  keeps the two maps as association lists in insertion order, passes the controller state
  explicitly, returns the provisioner calls and socket messages of every method as a list of
  effects, and takes what the outside world answers (whether an API call succeeds, the
  generated server id, the clock) as an argument. Logging and the Prometheus gauges never
  influence the registry and are left out.
\<close>

subsection \<open>JavaScript Map as an insertion-ordered association list\<close>

text \<open>
  \<open>Map.prototype.set\<close> overwrites the value of an existing key in place and appends a new key
  at the end; \<open>delete\<close> removes the key; \<open>get\<close> returns the value or \<open>undefined\<close> (\<open>None\<close>);
  \<open>values()\<close> iterates in insertion order.
\<close>

primrec map_set :: "'k \<Rightarrow> 'v \<Rightarrow> ('k \<times> 'v) list \<Rightarrow> ('k \<times> 'v) list" where
  "map_set k v [] = [(k, v)]"
| "map_set k v (p # ps) = (if fst p = k then (k, v) # ps else p # map_set k v ps)"

definition map_delete :: "'k \<Rightarrow> ('k \<times> 'v) list \<Rightarrow> ('k \<times> 'v) list" where
  "map_delete k m = filter (\<lambda>p. fst p \<noteq> k) m"

primrec map_get :: "('k \<times> 'v) list \<Rightarrow> 'k \<Rightarrow> 'v option" where
  "map_get [] k = None"
| "map_get (p # ps) k = (if fst p = k then Some (snd p) else map_get ps k)"

subsection \<open>JavaScript numbers where the code divides\<close>

text \<open>
  \<open>scaleServers\<close> divides two integers and compares the quotient with \<open>maxPlayersPerServer * 0.8\<close>.
  The quotient is modelled as an exact rational, with the three special results of a division
  by zero kept apart: \<open>0 / 0\<close> is \<open>NaN\<close>, and every comparison with \<open>NaN\<close> is false. The
  rounding of IEEE doubles is not modelled; player counts and the configuration numbers
  (results of \<open>parseInt\<close>) are integers.
\<close>

datatype jsnum = NaN | PosInf | NegInf | Fin rat

definition js_div :: "int \<Rightarrow> int \<Rightarrow> jsnum" where
  "js_div a b =
     (if b = 0 then (if a = 0 then NaN else if 0 < a then PosInf else NegInf)
      else Fin (of_int a / of_int b))"

fun js_gt :: "jsnum \<Rightarrow> rat \<Rightarrow> bool" where
  "js_gt NaN t = False"
| "js_gt PosInf t = True"
| "js_gt NegInf t = False"
| "js_gt (Fin q) t = (t < q)"

subsection \<open>Data\<close>

datatype status = Starting | Running

record serverInfo =
  id_srv :: string
  ip :: "string option"
  port :: "int option"
  players :: int
  status :: status
  createdAt :: int

record config =
  maxPlayersPerServer :: int
  minServers :: int
  maxServers :: int

record controller =
  servers :: "(string \<times> serverInfo) list"
  players_map :: "(string \<times> string) list"

text \<open>A pod as \<open>listNamespacedPod\<close> returns it: the fields \<open>discoverExistingServers\<close> reads.\<close>

record pod =
  pod_name :: string
  pod_phase :: string
  podIP :: "string option"
  creationTimestamp :: int

text \<open>
  What the world answers to one \<open>createGameServer\<close>: the id built from the clock and the random
  generator, the time of \<open>new Date()\<close>, and whether \<open>createNamespacedDeployment\<close> succeeds.
\<close>

record createEnv =
  new_id :: string
  now :: int
  create_ok :: bool

datatype error = ProvisionerError

datatype emit =
    ServerAssigned string "string option" "int option"
  | ServerAssignedNew string
  | ErrorMessage

datatype effect =
    CreateDeployment string
  | DeleteDeployment string
  | Emit emit

subsection \<open>Methods of GameServerController\<close>

definition discovered :: "pod \<Rightarrow> serverInfo" where
  "discovered p =
     \<lparr>id_srv = pod_name p, ip = podIP p, port = Some 3000, players = 0,
      status = Running, createdAt = creationTimestamp p\<rparr>"

primrec discover_loop :: "pod list \<Rightarrow> controller \<Rightarrow> controller" where
  "discover_loop [] st = st"
| "discover_loop (p # ps) st =
     discover_loop ps
       (if pod_phase p = ''Running''
        then st\<lparr>servers := map_set (id_srv (discovered p)) (discovered p) (servers st)\<rparr>
        else st)"

text \<open>The \<open>catch\<close> of \<open>discoverExistingServers\<close> logs a failed listing and returns normally.\<close>

definition discoverExistingServers :: "error + pod list \<Rightarrow> controller \<Rightarrow> controller" where
  "discoverExistingServers listing st =
     (case listing of Inl e \<Rightarrow> st | Inr pods \<Rightarrow> discover_loop pods st)"

definition created :: "createEnv \<Rightarrow> serverInfo" where
  "created e =
     \<lparr>id_srv = new_id e, ip = None, port = None, players = 0,
      status = Starting, createdAt = now e\<rparr>"

text \<open>\<open>createGameServer\<close> rethrows the error of a failed API call; the registry is then unchanged.\<close>

definition createGameServer ::
  "createEnv \<Rightarrow> controller \<Rightarrow> effect list \<times> (error + serverInfo) \<times> controller" where
  "createGameServer e st =
     (if create_ok e
      then ([CreateDeployment (new_id e)], Inr (created e),
            st\<lparr>servers := map_set (new_id e) (created e) (servers st)\<rparr>)
      else ([CreateDeployment (new_id e)], Inl ProvisionerError, st))"

text \<open>\<open>deleteGameServer\<close> swallows the error of a failed API call and keeps the entry.\<close>

definition deleteGameServer :: "string \<Rightarrow> bool \<Rightarrow> controller \<Rightarrow> effect list \<times> controller" where
  "deleteGameServer serverId delete_ok st =
     ([DeleteDeployment serverId],
      if delete_ok then st\<lparr>servers := map_delete serverId (servers st)\<rparr> else st)"

definition runningServers :: "controller \<Rightarrow> serverInfo list" where
  "runningServers st = filter (\<lambda>s. status s = Running) (map snd (servers st))"

text \<open>
  The \<open>for\<close> loop of \<open>ensureMinimumServers\<close>: \<open>k\<close> creations remain, the next one is the
  \<open>i\<close>-th; an exception of \<open>createGameServer\<close> leaves the loop.
\<close>

primrec create_loop ::
  "(nat \<Rightarrow> createEnv) \<Rightarrow> nat \<Rightarrow> nat \<Rightarrow> controller \<Rightarrow> effect list \<times> (error + unit) \<times> controller" where
  "create_loop env 0 i st = ([], Inr (), st)"
| "create_loop env (Suc k) i st =
     (case createGameServer (env i) st of
        (effs, Inl err, st') \<Rightarrow> (effs, Inl err, st')
      | (effs, Inr info, st') \<Rightarrow>
          (case create_loop env k (Suc i) st' of
             (effs', r, st'') \<Rightarrow> (effs @ effs', r, st'')))"

definition ensureMinimumServers ::
  "config \<Rightarrow> (nat \<Rightarrow> createEnv) \<Rightarrow> controller \<Rightarrow> effect list \<times> (error + unit) \<times> controller" where
  "ensureMinimumServers cfg env st =
     (let n = int (length (runningServers st)) in
      if n < minServers cfg
      then create_loop env (nat (minServers cfg - n)) 0 st
      else ([], Inr (), st))"


text \<open>
  \<open>findAvailableServer\<close>: filter, sort by \<open>players\<close> (\<open>Array.prototype.sort\<close> is stable, as
  \<open>sort_key\<close> is), first element or \<open>null\<close>. The result is the object stored in the map; the
  model returns it with the key it is stored under.
\<close>

definition findAvailableServer :: "config \<Rightarrow> controller \<Rightarrow> (string \<times> serverInfo) option" where
  "findAvailableServer cfg st =
     (case sort_key (\<lambda>p. players (snd p))
             (filter (\<lambda>p. status (snd p) = Running \<and> players (snd p) < maxPlayersPerServer cfg)
                (servers st)) of
        [] \<Rightarrow> None
      | p # ps \<Rightarrow> Some p)"

definition totalPlayers :: "serverInfo list \<Rightarrow> int" where
  "totalPlayers rs = foldl (\<lambda>sum server. sum + players server) 0 rs"

definition averageLoad :: "serverInfo list \<Rightarrow> jsnum" where
  "averageLoad rs = js_div (totalPlayers rs) (int (length rs))"

subsection \<open>Socket handlers\<close>

text \<open>
  \<open>request-server\<close>: \<open>availableServer.players++\<close> mutates the object stored in the map, that is
  the entry under the key it was found at.
\<close>

definition request_server :: "config \<Rightarrow> string \<Rightarrow> createEnv \<Rightarrow> controller \<Rightarrow> effect list \<times> controller" where
  "request_server cfg playerId e st =
     (case findAvailableServer cfg st of
        Some (k, availableServer) \<Rightarrow>
          ([Emit (ServerAssigned (id_srv availableServer) (ip availableServer) (port availableServer))],
           st\<lparr>servers := map_set k (availableServer\<lparr>players := players availableServer + 1\<rparr>) (servers st),
              players_map := map_set playerId (id_srv availableServer) (players_map st)\<rparr>)
      | None \<Rightarrow>
          (case createGameServer e st of
             (effs, Inr newServer, st') \<Rightarrow> (effs @ [Emit (ServerAssignedNew (id_srv newServer))], st')
           | (effs, Inl err, st') \<Rightarrow> (effs @ [Emit ErrorMessage], st')))"

text \<open>\<open>player-disconnect\<close>: \<open>if (serverId)\<close> is false for \<open>undefined\<close> and for the empty string.\<close>

definition player_disconnect :: "string \<Rightarrow> controller \<Rightarrow> controller" where
  "player_disconnect playerId st =
     (case map_get (players_map st) playerId of
        None \<Rightarrow> st
      | Some serverId \<Rightarrow>
          if serverId = [] then st
          else
            (let st' =
               (case map_get (servers st) serverId of
                  None \<Rightarrow> st
                | Some server \<Rightarrow>
                    if 0 < players server
                    then st\<lparr>servers := map_set serverId (server\<lparr>players := players server - 1\<rparr>) (servers st)\<rparr>
                    else st)
             in st'\<lparr>players_map := map_delete playerId (players_map st')\<rparr>))"

subsection \<open>The scaling tick and what is handled while it waits\<close>

text \<open>
  \<open>scaleServers\<close> suspends at \<open>await this.createGameServer()\<close>. Until the create call
  returns, the process handles other events, and the \<open>runningServers\<close> array of the tick
  still refers to the objects it collected on entry: the scale-down block reads their
  \<open>players\<close> as they are after the wait. An event is one handler that changes the controller:
  the two socket handlers, and a create or a delete completing (the HTTP routes, or another
  tick). Discovery and the top-up are over before \<open>initialize\<close> starts the timer, so they are
  no events of a tick. A \<open>request-server\<close> that finds no instance is taken with its create
  call; when that call returns later, the request is an event with a failed create and the
  completion a \<open>Posted\<close> event. The effects of an event belong to its own handler and are not
  effects of the tick.
\<close>

datatype event =
    Requested string createEnv
  | Disconnected string
  | Posted createEnv
  | Deleted string bool

fun handle :: "config \<Rightarrow> event \<Rightarrow> controller \<Rightarrow> controller" where
  "handle cfg (Requested playerId e) st = snd (request_server cfg playerId e st)"
| "handle cfg (Disconnected playerId) st = player_disconnect playerId st"
| "handle cfg (Posted e) st = snd (snd (createGameServer e st))"
| "handle cfg (Deleted serverId delete_ok) st = snd (deleteGameServer serverId delete_ok st)"

text \<open>
  An object the tick holds a reference to is either still the one stored in \<open>servers\<close> under
  its key (\<open>Live\<close>, with its current fields), or it has been deleted from the map or replaced
  there by a new object (\<open>Frozen\<close>): no handler reaches it any more and its fields stay as
  they were. \<open>replaces\<close> says that an event, handled in state \<open>st\<close>, does \<open>servers.delete(k)\<close>
  or \<open>servers.set(k, ...)\<close> with a new object; the increments and decrements of the socket
  handlers change the stored object in place.
\<close>

datatype tracked = Live string serverInfo | Frozen serverInfo

fun obj_of :: "tracked \<Rightarrow> serverInfo" where
  "obj_of (Live k obj) = obj"
| "obj_of (Frozen obj) = obj"

fun replaces :: "config \<Rightarrow> event \<Rightarrow> controller \<Rightarrow> string \<Rightarrow> bool" where
  "replaces cfg (Requested playerId e) st k =
     (findAvailableServer cfg st = None \<and> create_ok e \<and> new_id e = k)"
| "replaces cfg (Disconnected playerId) st k = False"
| "replaces cfg (Posted e) st k = (create_ok e \<and> new_id e = k)"
| "replaces cfg (Deleted serverId delete_ok) st k = (delete_ok \<and> serverId = k)"

fun track :: "config \<Rightarrow> event \<Rightarrow> controller \<Rightarrow> tracked \<Rightarrow> tracked" where
  "track cfg ev st (Frozen obj) = Frozen obj"
| "track cfg ev st (Live k obj) =
     (if replaces cfg ev st k then Frozen obj
      else (case map_get (servers (handle cfg ev st)) k of
              Some obj' \<Rightarrow> Live k obj'
            | None \<Rightarrow> Live k obj))"

text \<open>The events of a wait, in the order they are handled, on the controller and the references.\<close>

fun handled :: "config \<Rightarrow> event list \<Rightarrow> controller \<times> tracked list \<Rightarrow> controller \<times> tracked list" where
  "handled cfg [] (st, ts) = (st, ts)"
| "handled cfg (ev # evs) (st, ts) = handled cfg evs (handle cfg ev st, map (track cfg ev st) ts)"

text \<open>The references of the \<open>runningServers\<close> array, taken on entry of the tick.\<close>

definition snapshot :: "controller \<Rightarrow> tracked list" where
  "snapshot st = map (\<lambda>x. Live (fst x) (snd x)) (filter (\<lambda>x. status (snd x) = Running) (servers st))"

text \<open>
  The second block of \<open>scaleServers\<close> (scale down): \<open>rs\<close> is the \<open>runningServers\<close> array with the
  fields its objects have when the block runs.
\<close>

definition scale_down :: "config \<Rightarrow> bool \<Rightarrow> serverInfo list \<Rightarrow> controller \<Rightarrow> effect list \<times> controller" where
  "scale_down cfg delete_ok rs st =
     (let idleServers = filter (\<lambda>s. players s = 0) rs in
      if 1 < length idleServers \<and> minServers cfg < int (length rs)
      then (case idleServers of
              [] \<Rightarrow> ([], st)
            | serverToRemove # rest \<Rightarrow> deleteGameServer (id_srv serverToRemove) delete_ok st)
      else ([], st))"

text \<open>
  \<open>scaleServers\<close>: \<open>runningServers\<close>, \<open>totalPlayers\<close> and \<open>averageLoad\<close> are computed on entry. When
  the scale-up fires, the events \<open>during\<close> are handled while the create call is awaited; the
  registry entry is set when the call has returned, and an exception of \<open>createGameServer\<close>
  ends the tick before the scale-down. When the scale-up does not fire nothing is awaited
  before the scale-down and \<open>during\<close> plays no part.
\<close>

definition scaleServers ::
  "config \<Rightarrow> createEnv \<Rightarrow> bool \<Rightarrow> event list \<Rightarrow> controller
     \<Rightarrow> effect list \<times> (error + unit) \<times> controller" where
  "scaleServers cfg e delete_ok during st =
     (let rs = runningServers st in
      if js_gt (averageLoad rs) (of_int (maxPlayersPerServer cfg) * (8 / 10))
         \<and> int (length rs) < maxServers cfg
      then (case handled cfg during (st, snapshot st) of
              (st1, ts) \<Rightarrow>
                (case createGameServer e st1 of
                   (effs, Inl err, st') \<Rightarrow> (effs, Inl err, st')
                 | (effs, Inr info, st') \<Rightarrow>
                     (case scale_down cfg delete_ok (map obj_of ts) st' of
                        (effs', st'') \<Rightarrow> (effs @ effs', Inr (), st''))))
      else (case scale_down cfg delete_ok rs st of
              (effs', st'') \<Rightarrow> (effs', Inr (), st'')))"

subsection \<open>The controller as a transition system\<close>

text \<open>
  \<open>new GameServerController()\<close> starts with two empty maps. Every entry point of the process is
  one operation: the two phases of \<open>initialize\<close>, the two socket handlers, the timer callback
  of \<open>startHealthChecks\<close> and the two HTTP routes that change the registry (\<open>POST /servers\<close> calls
  \<open>createGameServer\<close>, \<open>DELETE /servers/:id\<close> calls \<open>deleteGameServer\<close>).

  A handler that awaits a provisioner call changes the registry only when the call has
  returned, and but for the tick nothing it read before the wait decides what it does
  after it. So a step stands for the moment the call returns, and the events handled during
  the wait are steps before it. The tick is the exception, and carries the events of its
  first wait. After its second wait (the delete call) it only removes the id it has already
  chosen: a tick whose delete returns after other events leaves the state of a tick with a
  failed delete, those events, and a \<open>DeleteServers\<close> step for that id.
\<close>

definition new_controller :: controller where
  "new_controller = \<lparr>servers = [], players_map = []\<rparr>"

datatype op =
    Discover "error + pod list"
  | EnsureMinimum "nat \<Rightarrow> createEnv"
  | RequestServer string createEnv
  | PlayerDisconnect string
  | Tick createEnv bool "event list"
  | PostServers createEnv
  | DeleteServers string bool

fun step :: "config \<Rightarrow> op \<Rightarrow> controller \<Rightarrow> controller" where
  "step cfg (Discover listing) st = discoverExistingServers listing st"
| "step cfg (EnsureMinimum env) st = snd (snd (ensureMinimumServers cfg env st))"
| "step cfg (RequestServer playerId e) st = snd (request_server cfg playerId e st)"
| "step cfg (PlayerDisconnect playerId) st = player_disconnect playerId st"
| "step cfg (Tick e delete_ok during) st = snd (snd (scaleServers cfg e delete_ok during st))"
| "step cfg (PostServers e) st = snd (snd (createGameServer e st))"
| "step cfg (DeleteServers serverId delete_ok) st = snd (deleteGameServer serverId delete_ok st)"

definition run :: "config \<Rightarrow> op list \<Rightarrow> controller \<Rightarrow> controller" where
  "run cfg ops st = foldl (\<lambda>s x. step cfg x s) st ops"

fun is_discover :: "op \<Rightarrow> bool" where
  "is_discover (Discover listing) = True"
| "is_discover x = False"

subsection \<open>Observations on effects and registries\<close>

fun is_create :: "effect \<Rightarrow> bool" where
  "is_create (CreateDeployment i) = True"
| "is_create x = False"


text \<open>An instance qualifies for placement when it is running and has a free slot.\<close>

definition qualifies :: "config \<Rightarrow> serverInfo \<Rightarrow> bool" where
  "qualifies cfg s = (status s = Running \<and> players s < maxPlayersPerServer cfg)"

text \<open>The average load as the specification words it: the divisor is \<open>max(1, n)\<close>.\<close>

definition averageLoad_spec :: "serverInfo list \<Rightarrow> jsnum" where
  "averageLoad_spec rs = Fin (of_int (totalPlayers rs) / of_int (max 1 (int (length rs))))"

subsection \<open>Sample configurations and registries\<close>

text \<open>The defaults of the constructor: capacity 100, between 2 and 10 instances.\<close>

definition cfg_default :: config where
  "cfg_default = \<lparr>maxPlayersPerServer = 100, minServers = 2, maxServers = 10\<rparr>"

definition running_pod :: "string \<Rightarrow> int \<Rightarrow> pod" where
  "running_pod name t =
     \<lparr>pod_name = name, pod_phase = ''Running'', podIP = Some ''10.0.0.1'', creationTimestamp = t\<rparr>"

text \<open>Two idle pods, listed newest first.\<close>

definition st_tie :: controller where
  "st_tie = discoverExistingServers (Inr [running_pod ''a'' 200, running_pod ''b'' 100]) new_controller"

definition running_server :: "string \<Rightarrow> int \<Rightarrow> int \<Rightarrow> serverInfo" where
  "running_server name n t =
     \<lparr>id_srv = name, ip = Some ''10.0.0.1'', port = Some 3000, players = n,
      status = Running, createdAt = t\<rparr>"

text \<open>Two running instances \<open>a\<close> and \<open>b\<close> with the given numbers of players.\<close>

definition env_ok :: "string \<Rightarrow> createEnv" where
  "env_ok name = \<lparr>new_id = name, now = 1000, create_ok = True\<rparr>"

definition env_fail :: "string \<Rightarrow> createEnv" where
  "env_fail name = \<lparr>new_id = name, now = 1000, create_ok = False\<rparr>"

text \<open>
  A starting instance \<open>z\<close>, and two running instances \<open>a\<close> and \<open>b\<close> with the given numbers
  of players.
\<close>

definition st_load :: "int \<Rightarrow> int \<Rightarrow> controller" where
  "st_load n m =
     \<lparr>servers = [(''z'', created (env_ok ''z'')), (''a'', running_server ''a'' n 100),
                 (''b'', running_server ''b'' m 200)],
      players_map = []\<rparr>"

text \<open>A capacity below zero, as \<open>MAX_PLAYERS_PER_SERVER=-1\<close> gives it.\<close>

definition cfg_neg :: config where
  "cfg_neg = \<lparr>maxPlayersPerServer = - 1, minServers = 2, maxServers = 10\<rparr>"






text \<open>One running instance \<open>a\<close> with room, and the registry after player \<open>p\<close> was placed on it.\<close>

definition st_one :: controller where
  "st_one = discoverExistingServers (Inr [running_pod ''a'' 100]) new_controller"

definition st_placed :: controller where
  "st_placed = snd (request_server cfg_default ''p'' (env_ok ''n'') st_one)"

text \<open>One running instance at its capacity of 100.\<close>

definition st_full :: controller where
  "st_full = \<lparr>servers = [(''a'', running_server ''a'' 100 0)], players_map = []\<rparr>"

text \<open>The invariant of claim C5 on one registry, and the ids of the running instances.\<close>

definition within_capacity :: "config \<Rightarrow> controller \<Rightarrow> bool" where
  "within_capacity cfg st =
     list_all (\<lambda>x. status (snd x) = Running \<longrightarrow> players (snd x) \<le> maxPlayersPerServer cfg)
       (servers st)"

definition running_ids :: "controller \<Rightarrow> string set" where
  "running_ids st = set (map fst (filter (\<lambda>x. status (snd x) = Running) (servers st)))"

text \<open>A capacity of one player, and a run that fills the only running instance.\<close>

definition cfg_one :: config where
  "cfg_one = \<lparr>maxPlayersPerServer = 1, minServers = 1, maxServers = 10\<rparr>"

definition ops_fill :: "op list" where
  "ops_fill =
     [Discover (Inr [running_pod ''a'' 100]),
      RequestServer ''p'' (env_ok ''n''),
      RequestServer ''q'' (env_ok ''m''),
      Tick (env_ok ''t'') True [Disconnected ''p'', Requested ''r'' (env_ok ''u'')]]"


section \<open>Properties\<close>

subsection \<open>Maps and lists\<close>

lemma filter_first_index:
  assumes "filter P xs = y # ys"
  shows "\<exists>i<length xs. xs ! i = y \<and> P y \<and> (\<forall>j<i. \<not> P (xs ! j))"
proof -
  from assms obtain us vs where xs: "xs = us @ y # vs" and us: "\<forall>u\<in>set us. \<not> P u" and y: "P y"
    by (auto simp: filter_eq_Cons_iff)
  have "xs ! length us = y" using xs by simp
  moreover have "length us < length xs" using xs by simp
  moreover have "\<forall>j<length us. \<not> P (xs ! j)"
    using xs us by (simp add: nth_append)
  ultimately show ?thesis using y by blast
qed

text \<open>
  The head of a stably sorted list has the least key, and is the first element of the
  unsorted list with that key.
\<close>

lemma sort_key_head:
  assumes "sort_key f xs = y # ys"
  shows "y \<in> set xs \<and> (\<forall>x\<in>set xs. f y \<le> f x) \<and> (\<exists>zs. filter (\<lambda>x. f x = f y) xs = y # zs)"
proof -
  have mem: "set (sort_key f xs) = set xs" by simp
  have srt: "sorted (map f (sort_key f xs))" by simp
  have y: "y \<in> set xs" using assms mem by (metis list.set_intros(1))
  have le: "\<forall>x\<in>set xs. f y \<le> f x"
  proof
    fix x assume "x \<in> set xs"
    then have "x \<in> set (y # ys)" using assms mem by simp
    then show "f y \<le> f x" using srt assms by auto
  qed
  have "filter (\<lambda>x. f x = f y) xs = filter (\<lambda>x. f x = f y) (sort_key f xs)"
    by (simp add: sort_key_stable)
  also have "\<dots> = y # filter (\<lambda>x. f x = f y) ys" using assms by simp
  finally show ?thesis using y le by blast
qed

lemma sort_key_Nil_iff: "(sort_key f qs = []) = (qs = [])"
  using length_sort [of f qs] length_0_conv by metis

lemma case_list_None_iff: "((case xs of [] \<Rightarrow> None | p # ps \<Rightarrow> Some p) = None) = (xs = [])"
  by (cases xs) simp_all

lemma case_list_SomeD: "(case xs of [] \<Rightarrow> None | p # ps \<Rightarrow> Some p) = Some y \<Longrightarrow> \<exists>ys. xs = y # ys"
  by (cases xs) simp_all

text \<open>The three map operations against each other.\<close>

lemma map_get_map_set: "map_get (map_set k v m) k' = (if k' = k then Some v else map_get m k')"
  by (induction m) auto

lemma map_get_map_delete: "map_get (map_delete k m) k' = (if k' = k then None else map_get m k')"
  by (induction m) (auto simp: map_delete_def)

lemma map_get_SomeD: "map_get m k = Some v \<Longrightarrow> (k, v) \<in> set m"
  by (induction m) (auto split: if_splits)

lemma set_map_set: "set (map_set k v m) \<subseteq> insert (k, v) (set m)"
  by (induction m) auto

lemma set_map_delete: "set (map_delete k m) \<subseteq> set m"
  by (auto simp: map_delete_def)

lemma map_delete_absent: "map_get m k = None \<Longrightarrow> map_delete k m = m"
proof (induction m)
  case Nil
  then show ?case by (simp add: map_delete_def)
next
  case (Cons p m)
  then show ?case by (auto simp: map_delete_def split: if_splits)
qed





subsection \<open>Placement: findAvailableServer\<close>

lemma findAvailableServer_None:
  "(findAvailableServer cfg st = None) = (\<forall>p\<in>set (servers st). \<not> qualifies cfg (snd p))"
  unfolding findAvailableServer_def case_list_None_iff sort_key_Nil_iff filter_empty_conv qualifies_def
  by (rule refl)

lemma findAvailableServer_first:
  assumes "findAvailableServer cfg st = Some p"
  shows "\<exists>i<length (servers st). servers st ! i = p \<and> qualifies cfg (snd p)
     \<and> (\<forall>j<length (servers st). qualifies cfg (snd (servers st ! j)) \<longrightarrow>
           players (snd p) \<le> players (snd (servers st ! j))
           \<and> (j < i \<longrightarrow> players (snd p) < players (snd (servers st ! j))))"
proof -
  let ?Q = "\<lambda>p. status (snd p) = Running \<and> players (snd p) < maxPlayersPerServer cfg"
  let ?f = "\<lambda>p. players (snd p)"
  let ?qs = "filter ?Q (servers st)"
  from assms have "\<exists>ps. sort_key ?f ?qs = p # ps"
    unfolding findAvailableServer_def by (rule case_list_SomeD)
  then obtain ps where srt: "sort_key ?f ?qs = p # ps" ..
  from sort_key_head [OF srt] obtain zs where
    mem: "p \<in> set ?qs" and le: "\<forall>x\<in>set ?qs. ?f p \<le> ?f x"
    and fst: "filter (\<lambda>x. ?f x = ?f p) ?qs = p # zs"
    by blast
  have "filter (\<lambda>x. ?Q x \<and> ?f x = ?f p) (servers st) = p # zs"
    using fst by (simp add: conj_commute)
  from filter_first_index [OF this] obtain i where
    i: "i < length (servers st)" "servers st ! i = p"
    and before: "\<forall>j<i. \<not> (?Q (servers st ! j) \<and> ?f (servers st ! j) = ?f p)"
    by blast
  have q: "qualifies cfg (snd p)" using mem by (simp add: qualifies_def)
  have "\<forall>j<length (servers st). qualifies cfg (snd (servers st ! j)) \<longrightarrow>
           players (snd p) \<le> players (snd (servers st ! j))
           \<and> (j < i \<longrightarrow> players (snd p) < players (snd (servers st ! j)))"
  proof (intro allI impI)
    fix j assume j: "j < length (servers st)" and qj: "qualifies cfg (snd (servers st ! j))"
    then have "servers st ! j \<in> set ?qs" by (simp add: qualifies_def)
    then have l: "players (snd p) \<le> players (snd (servers st ! j))" using le by blast
    have "j < i \<longrightarrow> players (snd p) < players (snd (servers st ! j))"
    proof
      assume "j < i"
      then have "players (snd (servers st ! j)) \<noteq> players (snd p)"
        using before qj by (auto simp: qualifies_def)
      then show "players (snd p) < players (snd (servers st ! j))" using l by simp
    qed
    then show "players (snd p) \<le> players (snd (servers st ! j))
           \<and> (j < i \<longrightarrow> players (snd p) < players (snd (servers st ! j)))" using l by simp
  qed
  then show ?thesis using i q by blast
qed

lemma st_tie_servers:
  "servers st_tie =
     [(''a'', discovered (running_pod ''a'' 200)), (''b'', discovered (running_pod ''b'' 100))]"
  by (simp add: st_tie_def discoverExistingServers_def new_controller_def running_pod_def
      discovered_def)

lemma st_tie_find:
  "findAvailableServer cfg_default st_tie = Some (''a'', discovered (running_pod ''a'' 200))"
  by (simp add: findAvailableServer_def st_tie_servers cfg_default_def discovered_def
      running_pod_def)

text \<open>
  Claim C2, as the code has it. When some instance qualifies (running, with
  \<open>players < maxPlayersPerServer\<close>), \<open>findAvailableServer\<close> returns a qualifying entry of the
  registry with the least \<open>players\<close> among the qualifying ones, and among those with that
  count the one that comes first in the registry's insertion order: every qualifying entry
  before it has strictly more players. \<open>createdAt\<close> plays no part.
\<close>

theorem findAvailableServer_least_first:
  assumes "\<exists>p\<in>set (servers st). qualifies cfg (snd p)"
  shows "\<exists>i<length (servers st).
     findAvailableServer cfg st = Some (servers st ! i)
     \<and> qualifies cfg (snd (servers st ! i))
     \<and> (\<forall>j<length (servers st). qualifies cfg (snd (servers st ! j)) \<longrightarrow>
           players (snd (servers st ! i)) \<le> players (snd (servers st ! j))
           \<and> (j < i \<longrightarrow> players (snd (servers st ! i)) < players (snd (servers st ! j))))"
proof -
  from assms have "findAvailableServer cfg st \<noteq> None"
    by (simp add: findAvailableServer_None)
  then obtain p where p: "findAvailableServer cfg st = Some p" by blast
  from findAvailableServer_first [OF p] show ?thesis using p by blast
qed

theorem findAvailableServer_least_first_witness:
  "qualifies cfg_default (snd (servers st_tie ! 0))
   \<and> (\<exists>i<length (servers st_tie). findAvailableServer cfg_default st_tie = Some (servers st_tie ! i))"
proof -
  have q: "qualifies cfg_default (snd (servers st_tie ! 0))"
    by (simp add: st_tie_servers qualifies_def cfg_default_def discovered_def)
  have "servers st_tie ! 0 \<in> set (servers st_tie)"
    by (simp add: st_tie_servers)
  with q have h: "\<exists>p\<in>set (servers st_tie). qualifies cfg_default (snd p)" by blast
  from findAvailableServer_least_first [OF h] q show ?thesis by blast
qed

text \<open>
  Against C2 as stated: two idle running instances, the older one listed second. The claim
  asks for the older one (\<open>b\<close>, created at 100); the code returns \<open>a\<close>, created at 200.
\<close>

theorem findAvailableServer_oldest_counterexample:
  "findAvailableServer cfg_default st_tie = Some (''a'', discovered (running_pod ''a'' 200))
   \<and> (''b'', discovered (running_pod ''b'' 100)) \<in> set (servers st_tie)
   \<and> qualifies cfg_default (discovered (running_pod ''b'' 100))
   \<and> players (discovered (running_pod ''b'' 100)) = players (discovered (running_pod ''a'' 200))
   \<and> createdAt (discovered (running_pod ''b'' 100)) < createdAt (discovered (running_pod ''a'' 200))"
proof -
  have "qualifies cfg_default (discovered (running_pod ''b'' 100))"
    by (simp add: qualifies_def cfg_default_def discovered_def)
  moreover have "(''b'', discovered (running_pod ''b'' 100)) \<in> set (servers st_tie)"
    by (simp add: st_tie_servers)
  moreover have "createdAt (discovered (running_pod ''b'' 100))
      < createdAt (discovered (running_pod ''a'' 200))"
    by (simp add: discovered_def running_pod_def)
  moreover have "players (discovered (running_pod ''b'' 100))
      = players (discovered (running_pod ''a'' 200))"
    by (simp add: discovered_def)
  ultimately show ?thesis using st_tie_find by simp
qed

subsection \<open>The scaling tick: scaleServers\<close>

lemma foldl_add_sum_list: "foldl (\<lambda>sum x. sum + f x) a xs = a + sum_list (map f xs)"
  by (induction xs arbitrary: a) (simp_all add: add.assoc)

lemma totalPlayers_sum_list: "totalPlayers rs = sum_list (map players rs)"
  by (simp add: totalPlayers_def foldl_add_sum_list)

text \<open>The condition of the scale-up, in numbers: the comparison is false when nothing runs.\<close>

lemma scale_up_condition:
  "(js_gt (averageLoad rs) (of_int c * (8 / 10)) \<and> int (length rs) < m) =
   (int (length rs) \<noteq> 0
    \<and> (8 / 10) * rat_of_int c
        < rat_of_int (sum_list (map players rs)) / rat_of_int (int (length rs))
    \<and> int (length rs) < m)"
proof (cases "rs = []")
  case True
  then show ?thesis by (simp add: averageLoad_def js_div_def totalPlayers_sum_list)
next
  case False
  then have "int (length rs) \<noteq> 0" by simp
  then show ?thesis
    by (simp add: averageLoad_def js_div_def totalPlayers_sum_list mult.commute)
qed

lemma scale_down_no_create: "filter is_create (fst (scale_down cfg d rs st)) = []"
  by (simp add: scale_down_def deleteGameServer_def Let_def split: list.splits)

lemma creates_of_tick:
  "filter is_create (fst (scaleServers cfg e d during st)) =
     (if js_gt (averageLoad (runningServers st)) (of_int (maxPlayersPerServer cfg) * (8 / 10))
         \<and> int (length (runningServers st)) < maxServers cfg
      then [CreateDeployment (new_id e)] else [])"
  by (simp add: scaleServers_def createGameServer_def Let_def split_beta scale_down_no_create)

lemma creates_of_tick_numbers:
  "filter is_create (fst (scaleServers cfg e d during st)) =
     (if int (length (filter (\<lambda>s. status s = Running) (map snd (servers st)))) \<noteq> 0
         \<and> (8 / 10) * rat_of_int (maxPlayersPerServer cfg)
             < rat_of_int (sum_list (map players (filter (\<lambda>s. status s = Running) (map snd (servers st)))))
               / rat_of_int (int (length (filter (\<lambda>s. status s = Running) (map snd (servers st)))))
         \<and> int (length (filter (\<lambda>s. status s = Running) (map snd (servers st)))) < maxServers cfg
      then [CreateDeployment (new_id e)] else [])"
  unfolding creates_of_tick scale_up_condition runningServers_def by (rule refl)

lemma st_load_running:
  "filter (\<lambda>s. status s = Running) (map snd (servers (st_load n m)))
     = [running_server ''a'' n 100, running_server ''b'' m 200]"
  by (simp add: st_load_def running_server_def created_def)

text \<open>
  Claim C1, as the code has it. One tick of \<open>scaleServers\<close> calls
  \<open>createNamespacedDeployment\<close> exactly once when at least one instance is running, the total
  of the running instances' players divided by their number is above 0.8 times
  \<open>maxPlayersPerServer\<close>, and fewer than \<open>maxServers\<close> instances are running; otherwise it does
  not call it. This holds whatever the call answers and whatever is handled while it is
  awaited. With two running instances of capacity 100, 85 players in total give no create,
  and 170 players give exactly one (when \<open>maxServers\<close> is above 2).
\<close>

theorem scaleServers_scale_up:
  "(let R = filter (\<lambda>s. status s = Running) (map snd (servers st));
        n = int (length R);
        T = sum_list (map players R)
    in filter is_create (fst (scaleServers cfg e d during st)) =
         (if n \<noteq> 0 \<and> (8 / 10) * rat_of_int (maxPlayersPerServer cfg) < rat_of_int T / rat_of_int n
             \<and> n < maxServers cfg
          then [CreateDeployment (new_id e)] else [])
       \<and> (n = 2 \<and> maxPlayersPerServer cfg = 100 \<and> T = 85
          \<longrightarrow> filter is_create (fst (scaleServers cfg e d during st)) = [])
       \<and> (n = 2 \<and> maxPlayersPerServer cfg = 100 \<and> T = 170 \<and> 2 < maxServers cfg
          \<longrightarrow> filter is_create (fst (scaleServers cfg e d during st)) = [CreateDeployment (new_id e)]))"
  unfolding Let_def
proof (intro conjI impI)
  show "filter is_create (fst (scaleServers cfg e d during st)) =
     (if int (length (filter (\<lambda>s. status s = Running) (map snd (servers st)))) \<noteq> 0
         \<and> (8 / 10) * rat_of_int (maxPlayersPerServer cfg)
             < rat_of_int (sum_list (map players (filter (\<lambda>s. status s = Running) (map snd (servers st)))))
               / rat_of_int (int (length (filter (\<lambda>s. status s = Running) (map snd (servers st)))))
         \<and> int (length (filter (\<lambda>s. status s = Running) (map snd (servers st)))) < maxServers cfg
      then [CreateDeployment (new_id e)] else [])"
    by (rule creates_of_tick_numbers)
next
  assume "int (length (filter (\<lambda>s. status s = Running) (map snd (servers st)))) = 2
    \<and> maxPlayersPerServer cfg = 100
    \<and> sum_list (map players (filter (\<lambda>s. status s = Running) (map snd (servers st)))) = 85"
  then show "filter is_create (fst (scaleServers cfg e d during st)) = []"
    unfolding creates_of_tick_numbers by simp
next
  assume "int (length (filter (\<lambda>s. status s = Running) (map snd (servers st)))) = 2
    \<and> maxPlayersPerServer cfg = 100
    \<and> sum_list (map players (filter (\<lambda>s. status s = Running) (map snd (servers st)))) = 170
    \<and> 2 < maxServers cfg"
  then show "filter is_create (fst (scaleServers cfg e d during st)) = [CreateDeployment (new_id e)]"
    unfolding creates_of_tick_numbers by simp
qed

text \<open>
  The witness has a starting instance in the registry beside the two running ones, and adds
  the boundary: 160 players are an average of exactly 80, which is not above 80.
\<close>

theorem scaleServers_scale_up_witness:
  "filter is_create (fst (scaleServers cfg_default (env_ok ''n'') True [] (st_load 40 45))) = []
   \<and> filter is_create (fst (scaleServers cfg_default (env_ok ''n'') True [] (st_load 85 85)))
       = [CreateDeployment ''n'']
   \<and> filter is_create (fst (scaleServers cfg_default (env_fail ''n'') True [] (st_load 85 85)))
       = [CreateDeployment ''n'']
   \<and> filter is_create (fst (scaleServers cfg_default (env_ok ''n'') True [] (st_load 80 80))) = []"
proof -
  have a: "filter is_create (fst (scaleServers cfg_default (env_ok ''n'') True [] (st_load 40 45))) = []"
    using scaleServers_scale_up [of "st_load 40 45" cfg_default "env_ok ''n''" True "[]"]
    unfolding Let_def st_load_running
    by (simp add: running_server_def cfg_default_def)
  have b: "filter is_create (fst (scaleServers cfg_default (env_ok ''n'') True [] (st_load 85 85)))
       = [CreateDeployment ''n'']"
    using scaleServers_scale_up [of "st_load 85 85" cfg_default "env_ok ''n''" True "[]"]
    unfolding Let_def st_load_running
    by (simp add: running_server_def cfg_default_def env_ok_def)
  have c: "filter is_create (fst (scaleServers cfg_default (env_fail ''n'') True [] (st_load 85 85)))
       = [CreateDeployment ''n'']"
    using scaleServers_scale_up [of "st_load 85 85" cfg_default "env_fail ''n''" True "[]"]
    unfolding Let_def st_load_running
    by (simp add: running_server_def cfg_default_def env_fail_def)
  have d: "filter is_create (fst (scaleServers cfg_default (env_ok ''n'') True [] (st_load 80 80))) = []"
    using scaleServers_scale_up [of "st_load 80 80" cfg_default "env_ok ''n''" True "[]"]
    unfolding Let_def st_load_running
    by (simp add: running_server_def cfg_default_def)
  from a b c d show ?thesis by simp
qed

text \<open>
  Against C1 as stated: no instance runs and the capacity is \<open>-1\<close>. The average load of
  the claim, \<open>totalPlayers / max(1, n)\<close>, is 0, which is above \<open>0.8 * -1\<close>, and 0 running
  instances are fewer than \<open>maxServers = 10\<close>: the claim asks for a create. The code's
  quotient is \<open>NaN\<close> and no create is issued.
\<close>

theorem scaleServers_scale_up_counterexample:
  "filter (\<lambda>s. status s = Running) (map snd (servers new_controller)) = []
   \<and> averageLoad_spec [] = Fin 0
   \<and> (8 / 10) * rat_of_int (maxPlayersPerServer cfg_neg) < 0
   \<and> int (length ([] :: serverInfo list)) < maxServers cfg_neg
   \<and> fst (scaleServers cfg_neg (env_ok ''n'') True [] new_controller) = []"
  by (simp add: new_controller_def averageLoad_spec_def totalPlayers_def cfg_neg_def
      scaleServers_def runningServers_def averageLoad_def js_div_def scale_down_def)

lemma runningServers_st_load:
  "runningServers (st_load n m) = [running_server ''a'' n 100, running_server ''b'' m 200]"
  unfolding runningServers_def by (rule st_load_running)

lemma scale_down_Nil: "scale_down cfg d [] st = ([], st)"
  by (simp add: scale_down_def)

lemma averageLoad_Nil: "averageLoad [] = NaN"
  by (simp add: averageLoad_def js_div_def totalPlayers_def)

text \<open>
  Claim C9, as the code has it. \<open>scaleServers\<close> divides \<open>totalPlayers\<close> by the number of running
  instances itself. With at least one running instance that is the quotient by
  \<open>max(1, n)\<close>; with none it is \<open>0 / 0\<close>, which is \<open>NaN\<close> and not 0, no exception is raised, both
  comparisons are false, and the tick issues no call and leaves the controller as it was.
\<close>

theorem averageLoad_divides_by_length:
  "(rs \<noteq> [] \<longrightarrow> averageLoad rs = averageLoad_spec rs)
   \<and> averageLoad [] = NaN
   \<and> (runningServers st = [] \<longrightarrow> scaleServers cfg e d during st = ([], Inr (), st))"
proof (intro conjI impI)
  assume "rs \<noteq> []"
  then have "int (length rs) \<noteq> 0 \<and> max 1 (int (length rs)) = int (length rs)"
    by (cases rs) simp_all
  then show "averageLoad rs = averageLoad_spec rs"
    by (simp add: averageLoad_def averageLoad_spec_def js_div_def)
next
  show "averageLoad [] = NaN" by (rule averageLoad_Nil)
next
  assume "runningServers st = []"
  then show "scaleServers cfg e d during st = ([], Inr (), st)"
    by (simp add: scaleServers_def averageLoad_Nil scale_down_Nil)
qed

theorem averageLoad_divides_by_length_witness:
  "averageLoad (runningServers (st_load 40 45)) = Fin (85 / 2)
   \<and> averageLoad_spec (runningServers (st_load 40 45)) = Fin (85 / 2)
   \<and> scaleServers cfg_default (env_ok ''n'') True [Disconnected ''p''] new_controller
       = ([], Inr (), new_controller)"
proof -
  have a: "runningServers (st_load 40 45) \<noteq> []"
    by (simp add: runningServers_st_load)
  have b: "runningServers new_controller = []"
    by (simp add: runningServers_def new_controller_def)
  have c: "averageLoad_spec (runningServers (st_load 40 45)) = Fin (85 / 2)"
    by (simp add: averageLoad_spec_def runningServers_st_load totalPlayers_def running_server_def)
  from a b c
    averageLoad_divides_by_length [of "runningServers (st_load 40 45)" new_controller
      cfg_default "env_ok ''n''" True "[Disconnected ''p'']"]
  show ?thesis by simp
qed

text \<open>
  Against C9 as stated: with no running instance the divisor is 0 and the code's average
  load is \<open>NaN\<close>, where the quotient by \<open>max(1, n)\<close> is 0.
\<close>

theorem averageLoad_empty_counterexample:
  "length (runningServers new_controller) = 0
   \<and> averageLoad (runningServers new_controller) = NaN
   \<and> averageLoad_spec (runningServers new_controller) = Fin 0
   \<and> averageLoad (runningServers new_controller) \<noteq> averageLoad_spec (runningServers new_controller)"
  by (simp add: runningServers_def new_controller_def averageLoad_Nil averageLoad_spec_def
      totalPlayers_def)



















text \<open>The controller a tick leaves.\<close>

lemma scaleServers_state:
  "snd (snd (scaleServers cfg e d during st)) =
     (if js_gt (averageLoad (runningServers st)) (of_int (maxPlayersPerServer cfg) * (8 / 10))
         \<and> int (length (runningServers st)) < maxServers cfg
      then (if create_ok e
            then snd (scale_down cfg d (map obj_of (snd (handled cfg during (st, snapshot st))))
                   ((fst (handled cfg during (st, snapshot st)))
                      \<lparr>servers := map_set (new_id e) (created e)
                                    (servers (fst (handled cfg during (st, snapshot st))))\<rparr>))
            else fst (handled cfg during (st, snapshot st)))
      else snd (scale_down cfg d (runningServers st) st))"
  by (simp add: scaleServers_def Let_def split_beta createGameServer_def)

subsection \<open>Startup: discoverExistingServers and ensureMinimumServers\<close>





lemma discover_nothing:
  "discoverExistingServers (Inl err) st = st \<and> discoverExistingServers (Inr []) st = st"
  by (simp add: discoverExistingServers_def)








subsection \<open>Release: the player-disconnect handler\<close>

lemma player_disconnect_unbound:
  "map_get (players_map st) p = None \<Longrightarrow> player_disconnect p st = st"
  by (simp add: player_disconnect_def)

lemma player_disconnect_empty_id:
  "map_get (players_map st) p = Some [] \<Longrightarrow> player_disconnect p st = st"
  by (simp add: player_disconnect_def)

lemma player_disconnect_unbinds:
  "map_get (players_map st) p = Some sid \<Longrightarrow> sid \<noteq> [] \<Longrightarrow>
   map_get (players_map (player_disconnect p st)) p = None"
  by (simp add: player_disconnect_def Let_def map_get_map_delete split: option.splits)

lemma player_disconnect_idem: "player_disconnect p (player_disconnect p st) = player_disconnect p st"
proof (cases "map_get (players_map st) p")
  case None
  then show ?thesis by (simp add: player_disconnect_unbound)
next
  case (Some sid)
  show ?thesis
  proof (cases "sid = []")
    case True
    with Some show ?thesis by (simp add: player_disconnect_empty_id)
  next
    case False
    from player_disconnect_unbinds [OF Some False] show ?thesis
      by (rule player_disconnect_unbound)
  qed
qed

lemma player_disconnect_servers:
  "(k, s') \<in> set (servers (player_disconnect p st)) \<Longrightarrow>
   (k, s') \<in> set (servers st)
   \<or> (\<exists>s. (k, s) \<in> set (servers st) \<and> 0 < players s \<and> s' = s\<lparr>players := players s - 1\<rparr>)"
proof (cases "map_get (players_map st) p")
  case None
  assume "(k, s') \<in> set (servers (player_disconnect p st))"
  with None show ?thesis by (simp add: player_disconnect_unbound)
next
  case (Some sid)
  assume m: "(k, s') \<in> set (servers (player_disconnect p st))"
  show ?thesis
  proof (cases "map_get (servers st) sid")
    case None
    with Some m show ?thesis
      by (simp add: player_disconnect_def Let_def split: if_splits)
  next
    case srv: (Some server)
    show ?thesis
    proof (cases "sid \<noteq> [] \<and> 0 < players server")
      case False
      with Some srv m show ?thesis
        by (auto simp: player_disconnect_def Let_def split: if_splits)
    next
      case True
      with Some srv m have "(k, s') \<in> set (map_set sid (server\<lparr>players := players server - 1\<rparr>) (servers st))"
        by (simp add: player_disconnect_def Let_def)
      with set_map_set have "(k, s') = (sid, server\<lparr>players := players server - 1\<rparr>) \<or> (k, s') \<in> set (servers st)"
        by fastforce
      with map_get_SomeD [OF srv] True show ?thesis by auto
    qed
  qed
qed

text \<open>
  Claim C8. For every controller state (so also for every state reached after a successful
  placement of \<open>p\<close>), releasing \<open>p\<close> twice leaves the same state as releasing \<open>p\<close> once;
  releasing a player with no session changes nothing; and a release never takes a player
  count below zero: when no count is negative before the release, none is after it.
\<close>

theorem player_disconnect_idempotent:
  "player_disconnect p (player_disconnect p st) = player_disconnect p st
   \<and> (map_get (players_map st) p = None \<longrightarrow> player_disconnect p st = st)
   \<and> ((\<forall>e\<in>set (servers st). 0 \<le> players (snd e))
      \<longrightarrow> (\<forall>e\<in>set (servers (player_disconnect p st)). 0 \<le> players (snd e)))"
proof (intro conjI impI ballI)
  show "player_disconnect p (player_disconnect p st) = player_disconnect p st"
    by (rule player_disconnect_idem)
next
  assume "map_get (players_map st) p = None"
  then show "player_disconnect p st = st" by (rule player_disconnect_unbound)
next
  fix e
  assume nonneg: "\<forall>e\<in>set (servers st). 0 \<le> players (snd e)"
    and e: "e \<in> set (servers (player_disconnect p st))"
  obtain k s' where ks: "e = (k, s')" by (cases e)
  from player_disconnect_servers [of k s' p st] e ks
  have "(k, s') \<in> set (servers st)
   \<or> (\<exists>s. (k, s) \<in> set (servers st) \<and> 0 < players s \<and> s' = s\<lparr>players := players s - 1\<rparr>)"
    by simp
  then show "0 \<le> players (snd e)"
  proof
    assume "(k, s') \<in> set (servers st)"
    with nonneg ks show ?thesis by fastforce
  next
    assume "\<exists>s. (k, s) \<in> set (servers st) \<and> 0 < players s \<and> s' = s\<lparr>players := players s - 1\<rparr>"
    with ks show ?thesis by auto
  qed
qed

lemma st_one_eq:
  "st_one = \<lparr>servers = [(''a'', discovered (running_pod ''a'' 100))], players_map = []\<rparr>"
  by (simp add: st_one_def discoverExistingServers_def new_controller_def running_pod_def
      discovered_def)

lemma st_one_find:
  "findAvailableServer cfg_default st_one = Some (''a'', discovered (running_pod ''a'' 100))"
  by (simp add: findAvailableServer_def st_one_eq cfg_default_def discovered_def)

lemma st_placed_eq:
  "st_placed =
     \<lparr>servers = [(''a'', (discovered (running_pod ''a'' 100))\<lparr>players := 1\<rparr>)],
      players_map = [(''p'', ''a'')]\<rparr>"
  unfolding st_placed_def request_server_def st_one_find
  by (simp add: st_one_eq discovered_def running_pod_def)

lemma st_placed_released: "player_disconnect ''p'' st_placed = st_one"
  by (simp add: st_placed_eq st_one_eq player_disconnect_def map_delete_def discovered_def)

theorem player_disconnect_idempotent_witness:
  "player_disconnect ''p'' st_placed = st_one
   \<and> player_disconnect ''p'' (player_disconnect ''p'' st_placed) = st_one
   \<and> map_get (players_map st_one) ''p'' = None
   \<and> player_disconnect ''p'' st_one = st_one
   \<and> list_all (\<lambda>e. 0 \<le> players (snd e)) (servers st_placed)
   \<and> list_all (\<lambda>e. 0 \<le> players (snd e)) (servers (player_disconnect ''p'' st_placed))"
proof -
  have a: "list_all (\<lambda>e. 0 \<le> players (snd e)) (servers st_placed)"
    by (simp add: st_placed_eq)
  then have "\<forall>e\<in>set (servers st_placed). 0 \<le> players (snd e)"
    by (simp add: list_all_iff)
  with player_disconnect_idempotent [of "''p''" st_placed]
  have "\<forall>e\<in>set (servers (player_disconnect ''p'' st_placed)). 0 \<le> players (snd e)"
    by blast
  then have b: "list_all (\<lambda>e. 0 \<le> players (snd e)) (servers (player_disconnect ''p'' st_placed))"
    by (simp add: list_all_iff)
  have c: "map_get (players_map st_one) ''p'' = None"
    by (simp add: st_one_eq)
  from c player_disconnect_idempotent [of "''p''" st_one]
  have d: "player_disconnect ''p'' st_one = st_one" by blast
  from player_disconnect_idempotent [of "''p''" st_placed] st_placed_released
  have "player_disconnect ''p'' (player_disconnect ''p'' st_placed) = st_one" by simp
  with a b c d st_placed_released show ?thesis by simp
qed

subsection \<open>Placement: the request-server handler\<close>

lemma findAvailableServer_mem:
  assumes "findAvailableServer cfg st = Some (k, s)"
  shows "(k, s) \<in> set (servers st) \<and> status s = Running \<and> players s < maxPlayersPerServer cfg"
proof -
  from findAvailableServer_first [OF assms] obtain i where
    "i < length (servers st)" "servers st ! i = (k, s)" "qualifies cfg (snd (k, s))"
    by blast
  then show ?thesis by (metis nth_mem qualifies_def snd_conv)
qed

lemma request_server_found:
  "findAvailableServer cfg st = Some (k, s) \<Longrightarrow>
   request_server cfg p e st =
     ([Emit (ServerAssigned (id_srv s) (ip s) (port s))],
      st\<lparr>servers := map_set k (s\<lparr>players := players s + 1\<rparr>) (servers st),
         players_map := map_set p (id_srv s) (players_map st)\<rparr>)"
  by (simp add: request_server_def)

lemma request_server_none:
  "findAvailableServer cfg st = None \<Longrightarrow>
   request_server cfg p e st =
     (if create_ok e
      then ([CreateDeployment (new_id e), Emit (ServerAssignedNew (new_id e))],
            st\<lparr>servers := map_set (new_id e) (created e) (servers st)\<rparr>)
      else ([CreateDeployment (new_id e), Emit ErrorMessage], st))"
  by (simp add: request_server_def createGameServer_def created_def)

text \<open>
  Claim C3, as the code has it. The handler never looks the player up before placing it. A
  request for a player \<open>p\<close> that already has a session is served like a first one whenever an
  instance qualifies: the selected instance is announced, its player count grows by one,
  the session of \<open>p\<close> is overwritten with the selected instance's id, and no other registry
  entry and no other session changes (so the count of the instance \<open>p\<close> was bound to is not
  given back).
\<close>

theorem request_server_rebinds:
  assumes "map_get (players_map st) p = Some old"
    and "findAvailableServer cfg st = Some (k, s)"
  shows "fst (request_server cfg p e st) = [Emit (ServerAssigned (id_srv s) (ip s) (port s))]
    \<and> map_get (players_map (snd (request_server cfg p e st))) p = Some (id_srv s)
    \<and> map_get (servers (snd (request_server cfg p e st))) k = Some (s\<lparr>players := players s + 1\<rparr>)
    \<and> (\<forall>k'. k' \<noteq> k \<longrightarrow>
          map_get (servers (snd (request_server cfg p e st))) k' = map_get (servers st) k')
    \<and> (\<forall>q. q \<noteq> p \<longrightarrow>
          map_get (players_map (snd (request_server cfg p e st))) q = map_get (players_map st) q)"
  unfolding request_server_found [OF assms(2)] by (simp add: map_get_map_set)

lemma st_placed_find:
  "findAvailableServer cfg_default st_placed
     = Some (''a'', (discovered (running_pod ''a'' 100))\<lparr>players := 1\<rparr>)"
  by (simp add: findAvailableServer_def st_placed_eq cfg_default_def discovered_def)

theorem request_server_rebinds_witness:
  "map_get (players_map st_placed) ''p'' = Some ''a''
   \<and> findAvailableServer cfg_default st_placed
       = Some (''a'', (discovered (running_pod ''a'' 100))\<lparr>players := 1\<rparr>)
   \<and> map_get (servers (snd (request_server cfg_default ''p'' (env_ok ''n'') st_placed))) ''a''
       = Some ((discovered (running_pod ''a'' 100))\<lparr>players := 2\<rparr>)"
proof -
  have a: "map_get (players_map st_placed) ''p'' = Some ''a''"
    by (simp add: st_placed_eq)
  from request_server_rebinds [OF a st_placed_find, of "env_ok ''n''"] a st_placed_find
  show ?thesis by simp
qed

text \<open>
  Against C3 as stated: player \<open>p\<close> is bound to \<open>a\<close>, which holds one player. A second
  request for \<open>p\<close> is answered with an assignment, and \<open>a\<close> then counts two players.
\<close>

theorem request_server_already_bound_counterexample:
  "map_get (players_map st_placed) ''p'' = Some ''a''
   \<and> map_get (servers st_placed) ''a'' = Some ((discovered (running_pod ''a'' 100))\<lparr>players := 1\<rparr>)
   \<and> request_server cfg_default ''p'' (env_ok ''n'') st_placed =
       ([Emit (ServerAssigned ''a'' (Some ''10.0.0.1'') (Some 3000))],
        \<lparr>servers = [(''a'', (discovered (running_pod ''a'' 100))\<lparr>players := 2\<rparr>)],
         players_map = [(''p'', ''a'')]\<rparr>)"
  unfolding request_server_found [OF st_placed_find]
  by (simp add: st_placed_eq discovered_def running_pod_def)

text \<open>
  Claim C4, as the code has it. When no running instance has a free slot, the handler calls
  \<open>createGameServer\<close> itself: one create call goes to the provisioner. When it succeeds the
  caller is sent \<open>server-assigned\<close> with the id of the new, still starting instance (and no
  address), and the instance is entered in the registry; when it fails the caller is sent
  \<open>error\<close> and nothing changes. In neither case is the player bound.
\<close>

theorem request_server_no_capacity:
  assumes "\<forall>x\<in>set (servers st). \<not> qualifies cfg (snd x)"
  shows "request_server cfg p e st =
     (if create_ok e
      then ([CreateDeployment (new_id e), Emit (ServerAssignedNew (new_id e))],
            st\<lparr>servers := map_set (new_id e) (created e) (servers st)\<rparr>)
      else ([CreateDeployment (new_id e), Emit ErrorMessage], st))
    \<and> players_map (snd (request_server cfg p e st)) = players_map st"
proof -
  from assms have n: "findAvailableServer cfg st = None"
    by (simp add: findAvailableServer_None)
  show ?thesis unfolding request_server_none [OF n] by simp
qed

lemma st_full_unqualified: "list_all (\<lambda>x. \<not> qualifies cfg_default (snd x)) (servers st_full)"
  by (simp add: st_full_def qualifies_def cfg_default_def running_server_def)

theorem request_server_no_capacity_witness:
  "list_all (\<lambda>x. \<not> qualifies cfg_default (snd x)) (servers st_full)
   \<and> request_server cfg_default ''p'' (env_fail ''n'') st_full =
       ([CreateDeployment ''n'', Emit ErrorMessage], st_full)"
proof -
  from st_full_unqualified have "\<forall>x\<in>set (servers st_full). \<not> qualifies cfg_default (snd x)"
    by (simp add: list_all_iff)
  from request_server_no_capacity [OF this, of "''p''" "env_fail ''n''"] st_full_unqualified
  show ?thesis by (simp add: env_fail_def)
qed

text \<open>
  Against C4 as stated: the only running instance is full. The request is answered with
  \<open>server-assigned\<close>, not with a no-capacity signal, and a create call is issued.
\<close>

theorem request_server_no_capacity_counterexample:
  "list_all (\<lambda>x. \<not> qualifies cfg_default (snd x)) (servers st_full)
   \<and> request_server cfg_default ''p'' (env_ok ''n'') st_full =
       ([CreateDeployment ''n'', Emit (ServerAssignedNew ''n'')],
        \<lparr>servers = [(''a'', running_server ''a'' 100 0), (''n'', created (env_ok ''n''))],
         players_map = []\<rparr>)"
proof -
  have "findAvailableServer cfg_default st_full = None"
    using st_full_unqualified by (simp add: findAvailableServer_None list_all_iff)
  from request_server_none [OF this, of "''p''" "env_ok ''n''"] st_full_unqualified
  show ?thesis by (simp add: env_ok_def st_full_def)
qed

subsection \<open>The capacity invariant\<close>

lemma within_capacity_iff:
  "within_capacity cfg st =
     (\<forall>x\<in>set (servers st). status (snd x) = Running \<longrightarrow> players (snd x) \<le> maxPlayersPerServer cfg)"
  by (simp add: within_capacity_def list_all_iff)

lemma within_capacity_map_set:
  assumes "within_capacity cfg st"
    and "status v = Running \<longrightarrow> players v \<le> maxPlayersPerServer cfg"
  shows "within_capacity cfg (st\<lparr>servers := map_set k v (servers st)\<rparr>)"
  unfolding within_capacity_iff
proof
  fix x assume "x \<in> set (servers (st\<lparr>servers := map_set k v (servers st)\<rparr>))"
  then have "x = (k, v) \<or> x \<in> set (servers st)"
    using set_map_set [of k v "servers st"] by auto
  then show "status (snd x) = Running \<longrightarrow> players (snd x) \<le> maxPlayersPerServer cfg"
    using assms by (auto simp: within_capacity_iff)
qed

lemma within_capacity_map_delete:
  assumes "within_capacity cfg st"
  shows "within_capacity cfg (st\<lparr>servers := map_delete k (servers st)\<rparr>)"
  using assms set_map_delete [of k "servers st"] by (auto simp: within_capacity_iff)

lemma within_capacity_players_map:
  "within_capacity cfg (st\<lparr>players_map := m\<rparr>) = within_capacity cfg st"
  by (simp add: within_capacity_def)

lemma within_capacity_discover_loop:
  "0 \<le> maxPlayersPerServer cfg \<Longrightarrow> within_capacity cfg st \<Longrightarrow>
   within_capacity cfg (discover_loop ps st)"
proof (induction ps arbitrary: st)
  case Nil
  then show ?case by simp
next
  case (Cons p ps)
  have "within_capacity cfg
          (st\<lparr>servers := map_set (id_srv (discovered p)) (discovered p) (servers st)\<rparr>)"
    using Cons.prems by (intro within_capacity_map_set) (simp_all add: discovered_def)
  with Cons show ?case by simp
qed

lemma within_capacity_create:
  "within_capacity cfg st \<Longrightarrow> within_capacity cfg (snd (snd (createGameServer e st)))"
  by (simp add: createGameServer_def within_capacity_map_set created_def)

lemma within_capacity_delete:
  "within_capacity cfg st \<Longrightarrow> within_capacity cfg (snd (deleteGameServer k d st))"
  by (simp add: deleteGameServer_def within_capacity_map_delete)

lemma within_capacity_create_loop:
  "within_capacity cfg st \<Longrightarrow> within_capacity cfg (snd (snd (create_loop env k i st)))"
proof (induction k arbitrary: i st)
  case 0
  then show ?case by simp
next
  case (Suc k)
  show ?case
  proof (cases "create_ok (env i)")
    case False
    with Suc.prems show ?thesis by (simp add: createGameServer_def)
  next
    case True
    let ?st1 = "st\<lparr>servers := map_set (new_id (env i)) (created (env i)) (servers st)\<rparr>"
    have "within_capacity cfg ?st1"
      using Suc.prems by (intro within_capacity_map_set) (simp_all add: created_def)
    from Suc.IH [OF this, of "Suc i"] True show ?thesis
      by (simp add: createGameServer_def split_beta)
  qed
qed

lemma within_capacity_scale_down:
  "within_capacity cfg st \<Longrightarrow> within_capacity cfg (snd (scale_down cfg d rs st))"
  by (simp add: scale_down_def Let_def within_capacity_delete split: list.splits)

lemma within_capacity_request:
  assumes "within_capacity cfg st"
  shows "within_capacity cfg (snd (request_server cfg p e st))"
proof (cases "findAvailableServer cfg st")
  case None
  have "within_capacity cfg (st\<lparr>servers := map_set (new_id e) (created e) (servers st)\<rparr>)"
    using assms by (intro within_capacity_map_set) (simp_all add: created_def)
  then show ?thesis using assms by (simp add: request_server_none [OF None])
next
  case (Some x)
  obtain k s where x: "x = (k, s)" by (cases x)
  from Some x have f: "findAvailableServer cfg st = Some (k, s)" by simp
  from findAvailableServer_mem [OF f] have "players s < maxPlayersPerServer cfg" by simp
  then have "within_capacity cfg (st\<lparr>servers := map_set k (s\<lparr>players := players s + 1\<rparr>) (servers st)\<rparr>)"
    using assms by (intro within_capacity_map_set) simp_all
  then show ?thesis
    by (simp add: request_server_found [OF f] within_capacity_def)
qed

lemma within_capacity_disconnect:
  assumes "within_capacity cfg st"
  shows "within_capacity cfg (player_disconnect p st)"
  unfolding within_capacity_iff
proof
  fix x assume x: "x \<in> set (servers (player_disconnect p st))"
  obtain k s' where ks: "x = (k, s')" by (cases x)
  from player_disconnect_servers [of k s' p st] x ks
  have "(k, s') \<in> set (servers st)
   \<or> (\<exists>s. (k, s) \<in> set (servers st) \<and> 0 < players s \<and> s' = s\<lparr>players := players s - 1\<rparr>)"
    by simp
  then show "status (snd x) = Running \<longrightarrow> players (snd x) \<le> maxPlayersPerServer cfg"
  proof
    assume "(k, s') \<in> set (servers st)"
    with assms ks show ?thesis by (auto simp: within_capacity_iff)
  next
    assume "\<exists>s. (k, s) \<in> set (servers st) \<and> 0 < players s \<and> s' = s\<lparr>players := players s - 1\<rparr>"
    then obtain s where "(k, s) \<in> set (servers st)" "s' = s\<lparr>players := players s - 1\<rparr>" by blast
    with assms ks show ?thesis by (fastforce simp: within_capacity_iff)
  qed
qed

lemma within_capacity_handle:
  "within_capacity cfg st \<Longrightarrow> within_capacity cfg (handle cfg ev st)"
  by (cases ev)
    (simp_all add: within_capacity_request within_capacity_disconnect within_capacity_create
      within_capacity_delete)

lemma within_capacity_handled:
  "within_capacity cfg st \<Longrightarrow> within_capacity cfg (fst (handled cfg evs (st, ts)))"
proof (induction evs arbitrary: st ts)
  case Nil
  then show ?case by simp
next
  case (Cons ev evs)
  from Cons.IH [OF within_capacity_handle [OF Cons.prems]] show ?case by simp
qed

lemma within_capacity_scaleServers:
  assumes "within_capacity cfg st"
  shows "within_capacity cfg (snd (snd (scaleServers cfg e d during st)))"
proof -
  let ?st1 = "fst (handled cfg during (st, snapshot st))"
  have w1: "within_capacity cfg ?st1"
    by (rule within_capacity_handled [OF assms])
  then have w2: "within_capacity cfg (?st1\<lparr>servers := map_set (new_id e) (created e) (servers ?st1)\<rparr>)"
    by (intro within_capacity_map_set) (simp_all add: created_def)
  show ?thesis
    unfolding scaleServers_state
    using assms w1 w2 by (simp add: within_capacity_scale_down)
qed

lemma within_capacity_step:
  assumes "within_capacity cfg st" and "is_discover x \<longrightarrow> 0 \<le> maxPlayersPerServer cfg"
  shows "within_capacity cfg (step cfg x st)"
proof (cases x)
  case (Discover listing)
  with assms show ?thesis
    by (cases listing) (simp_all add: discoverExistingServers_def within_capacity_discover_loop)
next
  case (EnsureMinimum env)
  with assms show ?thesis
    by (simp add: ensureMinimumServers_def Let_def within_capacity_create_loop)
next
  case (RequestServer p e)
  with assms show ?thesis by (simp add: within_capacity_request)
next
  case (PlayerDisconnect p)
  with assms show ?thesis by (simp add: within_capacity_disconnect)
next
  case (Tick e d during)
  with assms show ?thesis by (simp add: within_capacity_scaleServers)
next
  case (PostServers e)
  with assms show ?thesis by (simp add: within_capacity_create)
next
  case (DeleteServers k d)
  with assms show ?thesis by (simp add: within_capacity_delete)
qed

lemma within_capacity_run:
  "within_capacity cfg st \<Longrightarrow> \<forall>x\<in>set ops. is_discover x \<longrightarrow> 0 \<le> maxPlayersPerServer cfg \<Longrightarrow>
   within_capacity cfg (run cfg ops st)"
proof (induction ops arbitrary: st)
  case Nil
  then show ?case by (simp add: run_def)
next
  case (Cons x ops)
  from Cons.prems have "within_capacity cfg (step cfg x st)"
    by (intro within_capacity_step) simp_all
  from Cons.IH [OF this] Cons.prems(2) show ?case by (simp add: run_def)
qed

text \<open>
  Claim C5, as the code has it. Starting from the empty registry of the constructor, after
  every sequence of controller operations (discovery, top-up, placement, release, scaling
  tick with the events handled while it waits, manual create and delete) every running
  instance has \<open>players \<le> maxPlayersPerServer\<close>, provided \<open>maxPlayersPerServer\<close> is not negative
  whenever the sequence contains a discovery: discovery enters running instances with 0
  players, whatever the capacity.
\<close>

theorem running_within_capacity:
  assumes "\<forall>x\<in>set ops. is_discover x \<longrightarrow> 0 \<le> maxPlayersPerServer cfg"
  shows "\<forall>x\<in>set (servers (run cfg ops new_controller)).
           status (snd x) = Running \<longrightarrow> players (snd x) \<le> maxPlayersPerServer cfg"
proof -
  have "within_capacity cfg new_controller"
    by (simp add: within_capacity_def new_controller_def)
  from within_capacity_run [OF this assms] show ?thesis
    by (simp add: within_capacity_iff)
qed

lemma run_ops_fill:
  "run cfg_one ops_fill new_controller =
     \<lparr>servers = [(''a'', (discovered (running_pod ''a'' 100))\<lparr>players := 1\<rparr>),
                 (''m'', created (env_ok ''m'')), (''t'', created (env_ok ''t''))],
      players_map = [(''r'', ''a'')]\<rparr>"
  by (simp add: run_def ops_fill_def new_controller_def discoverExistingServers_def
      request_server_def findAvailableServer_def cfg_one_def discovered_def running_pod_def
      createGameServer_def env_ok_def created_def scaleServers_def runningServers_def
      averageLoad_def totalPlayers_def js_div_def scale_down_def snapshot_def
      player_disconnect_def map_delete_def)

text \<open>
  The witness fills the only running instance, of capacity 1, frees it and fills it again
  while a tick waits.
\<close>

theorem running_within_capacity_witness:
  "list_all (\<lambda>x. \<not> is_discover x \<or> 0 \<le> maxPlayersPerServer cfg_one) ops_fill
   \<and> servers (run cfg_one ops_fill new_controller)
       = [(''a'', (discovered (running_pod ''a'' 100))\<lparr>players := 1\<rparr>),
          (''m'', created (env_ok ''m'')), (''t'', created (env_ok ''t''))]
   \<and> list_all (\<lambda>x. status (snd x) \<noteq> Running \<or> players (snd x) \<le> maxPlayersPerServer cfg_one)
       (servers (run cfg_one ops_fill new_controller))"
proof -
  have a: "list_all (\<lambda>x. \<not> is_discover x \<or> 0 \<le> maxPlayersPerServer cfg_one) ops_fill"
    by (simp add: ops_fill_def cfg_one_def)
  then have "\<forall>x\<in>set ops_fill. is_discover x \<longrightarrow> 0 \<le> maxPlayersPerServer cfg_one"
    by (auto simp: list_all_iff)
  from running_within_capacity [OF this]
  have b: "list_all (\<lambda>x. status (snd x) \<noteq> Running \<or> players (snd x) \<le> maxPlayersPerServer cfg_one)
       (servers (run cfg_one ops_fill new_controller))"
    by (auto simp: list_all_iff)
  have c: "servers (run cfg_one ops_fill new_controller)
       = [(''a'', (discovered (running_pod ''a'' 100))\<lparr>players := 1\<rparr>),
          (''m'', created (env_ok ''m'')), (''t'', created (env_ok ''t''))]"
    by (simp add: run_ops_fill)
  from a b c show ?thesis by simp
qed

text \<open>
  Against C5 as stated: \<open>MAX_PLAYERS_PER_SERVER=-1\<close> and one running pod. After discovery the
  registry holds a running instance with 0 players, above its capacity of \<open>-1\<close>.
\<close>

theorem running_within_capacity_counterexample:
  "servers (run cfg_neg [Discover (Inr [running_pod ''a'' 100])] new_controller)
     = [(''a'', discovered (running_pod ''a'' 100))]
   \<and> status (discovered (running_pod ''a'' 100)) = Running
   \<and> maxPlayersPerServer cfg_neg < players (discovered (running_pod ''a'' 100))"
  by (simp add: run_def discoverExistingServers_def new_controller_def running_pod_def
      discovered_def cfg_neg_def)

subsection \<open>Nothing but discovery makes an instance running\<close>




lemma running_ids_players_map: "running_ids (st\<lparr>players_map := m\<rparr>) = running_ids st"
  by (simp add: running_ids_def)















end
